theory Spec2Isabelle
  imports Complex_Main "HOL-Library.Sublist" "HOL-Library.Signed_Division"
begin

section \<open>Cytosim player: display styles, labels, camera automation, image export\<close>

text \<open>
  A shallow embedding of \<^verbatim>\<open>src/play/player_disp.cc\<close>. Each member function of
  \<^verbatim>\<open>Player\<close> becomes a HOL function over the part of the player it reads and writes.
  Calls into OpenGL, into the simulation worker and into the image exporter are recorded
  as events, in program order, so that a statement about what is called and when is a
  statement about a list. C++ exceptions are values of the type \<open>result\<close>.
\<close>

subsection \<open>Results, exceptions, machine arithmetic\<close>

text \<open>An \<^verbatim>\<open>Exception\<close> carries its message; \<^verbatim>\<open>e.what()\<close> reads it.\<close>

datatype exception = Exception string

fun what :: "exception \<Rightarrow> string" where
  "what (Exception msg) = msg"

text \<open>
  How a call ends: it returns a value, an exception leaves it, or the program has no
  defined behaviour any more (an integer division by zero, a signed overflow).
\<close>

datatype 'a result = Return 'a | Throw exception | Fault

text \<open>
  The type \<^verbatim>\<open>int\<close> is 32 bits wide. A product outside its range and a division by zero
  are undefined in C++, hence \<open>None\<close>; the quotient is truncated towards zero.
\<close>

definition INT_MIN :: int where
  "INT_MIN = - (2 ^ 31)"

definition INT_MAX :: int where
  "INT_MAX = 2 ^ 31 - 1"

definition in_int :: "int \<Rightarrow> bool" where
  "in_int x = (INT_MIN \<le> x \<and> x \<le> INT_MAX)"

definition c_mul :: "int \<Rightarrow> int \<Rightarrow> int option" where
  "c_mul a b = (if in_int (a * b) then Some (a * b) else None)"

definition c_div :: "int \<Rightarrow> int \<Rightarrow> int option" where
  "c_div a b = (if b = 0 \<or> \<not> in_int (a sdiv b) then None else Some (a sdiv b))"

text \<open>The decrement \<^verbatim>\<open>--x\<close> of an \<^verbatim>\<open>int\<close>: undefined below the least value.\<close>

definition c_dec :: "int \<Rightarrow> int option" where
  "c_dec x = (if in_int (x - 1) then Some (x - 1) else None)"

subsection \<open>Floating-point values\<close>

text \<open>
  A value of the type \<^verbatim>\<open>GLfloat\<close> (binary32) or of the type \<^verbatim>\<open>real\<close> of the simulation
  (binary64) is a real number, an infinity, or not a number. Zero has no sign here.
\<close>

datatype fp = Finite real | PosInf | NegInf | NaN

text \<open>The number of binary digits of a positive integer.\<close>

function bits :: "int \<Rightarrow> nat" where
  "bits n = (if n \<le> 0 then 0 else Suc (bits (n div 2)))"
  by auto
termination
  by (relation "measure nat") auto

declare bits.simps [simp del]

definition pow2 :: "int \<Rightarrow> real" where
  "pow2 k = (if 0 \<le> k then 2 ^ nat k else 1 / 2 ^ nat (- k))"

text \<open>
  The binary exponent of a positive number \<open>x\<close>: the \<open>e\<close> with \<open>pow2 e \<le> x\<close> and
  \<open>x < pow2 (e + 1)\<close>.
\<close>

definition exponent :: "real \<Rightarrow> int" where
  "exponent x =
     (if 1 \<le> x then int (bits \<lfloor>x\<rfloor>) - 1
      else - int (bits (\<lceil>1 / x\<rceil> - 1)))"

text \<open>The nearest integer, the even one of the two when they are equally near.\<close>

definition nearest_even :: "real \<Rightarrow> int" where
  "nearest_even y =
     (let f = \<lfloor>y\<rfloor>; d = y - of_int f in
      if d < 1 / 2 then f
      else if 1 / 2 < d then f + 1
      else if even f then f else f + 1)"

text \<open>
  Rounding to the nearest value of a binary format with \<open>p\<close> digits and exponents from
  \<open>emin\<close> to \<open>emax\<close>: below \<open>pow2 emin\<close> the values are spaced as at \<open>pow2 emin\<close>, and
  what rounds to \<open>pow2 (emax + 1)\<close> or more is infinite.
\<close>

definition round_to :: "nat \<Rightarrow> int \<Rightarrow> int \<Rightarrow> real \<Rightarrow> fp" where
  "round_to p emin emax x =
     (if x = 0 then Finite 0
      else
        (let e = max emin (exponent \<bar>x\<bar>);
             ulp = pow2 (e - int p + 1);
             y = of_int (nearest_even (\<bar>x\<bar> / ulp)) * ulp
         in if pow2 (emax + 1) \<le> y then (if 0 < x then PosInf else NegInf)
            else Finite (if 0 < x then y else - y)))"

definition to_float :: "real \<Rightarrow> fp" where
  "to_float = round_to 24 (- 126) 127"

definition to_double :: "real \<Rightarrow> fp" where
  "to_double = round_to 53 (- 1022) 1023"

text \<open>The comparison \<^verbatim>\<open>a < b\<close>: false as soon as one side is not a number.\<close>

fun fp_less :: "fp \<Rightarrow> fp \<Rightarrow> bool" where
  "fp_less (Finite x) (Finite y) = (x < y)"
| "fp_less (Finite x) PosInf = True"
| "fp_less NegInf (Finite y) = True"
| "fp_less NegInf PosInf = True"
| "fp_less a b = False"

text \<open>
  The product and the quotient, rounded by \<open>rnd\<close> to the format of the operation. A
  number other than zero divided by zero is infinite.
\<close>

fun fp_mul :: "(real \<Rightarrow> fp) \<Rightarrow> fp \<Rightarrow> fp \<Rightarrow> fp" where
  "fp_mul rnd (Finite x) (Finite y) = rnd (x * y)"
| "fp_mul rnd NaN b = NaN"
| "fp_mul rnd a NaN = NaN"
| "fp_mul rnd a b =
     (if a = Finite 0 \<or> b = Finite 0 then NaN
      else if fp_less a (Finite 0) = fp_less b (Finite 0) then PosInf else NegInf)"

fun fp_div :: "(real \<Rightarrow> fp) \<Rightarrow> fp \<Rightarrow> fp \<Rightarrow> fp" where
  "fp_div rnd (Finite x) (Finite y) =
     (if y = 0 then (if x = 0 then NaN else if 0 < x then PosInf else NegInf)
      else rnd (x / y))"
| "fp_div rnd NaN b = NaN"
| "fp_div rnd a NaN = NaN"
| "fp_div rnd (Finite x) b = Finite 0"
| "fp_div rnd a (Finite y) = (if fp_less a (Finite 0) = (y < 0) then PosInf else NegInf)"
| "fp_div rnd a b = NaN"

text \<open>The narrowing conversion \<^verbatim>\<open>GLfloat(x)\<close> of a \<^verbatim>\<open>real\<close>.\<close>

fun GLfloat :: "fp \<Rightarrow> fp" where
  "GLfloat (Finite x) = to_float x"
| "GLfloat a = a"

subsection \<open>The viewing surface and the player\<close>

text \<open>
  The class \<^verbatim>\<open>View\<close> is declared outside the two source files; the record has the fields
  that \<^verbatim>\<open>player_disp.cc\<close> reads or assigns. The size of the view is a \<^verbatim>\<open>GLfloat\<close>. The
  counter \<open>auto_scale\<close> is compared with 0 and decremented: it is taken as an \<^verbatim>\<open>int\<close>.
\<close>

record View =
  window :: int
  window_size :: "int \<times> int"
  view_size :: fp
  zoom :: real
  auto_scale :: int
  track_fibers :: int
  stencil :: bool
  label :: string
  message :: string

text \<open>
  Modelled from the spec: \<^verbatim>\<open>View::width\<close> and \<^verbatim>\<open>View::height\<close> are not in the source
  files. The spec calls them the surface's stored width and height, the values the
  window size is overwritten with: the two entries of \<open>window_size\<close>.
\<close>

definition width :: "View \<Rightarrow> int" where
  "width v = fst (window_size v)"

definition height :: "View \<Rightarrow> int" where
  "height v = snd (window_size v)"

text \<open>
  Modelled from the spec: \<^verbatim>\<open>View::zoom_in\<close> is not in the source files. The spec says
  it applies a multiplier to the zoom of the surface.
\<close>

definition zoom_in :: "real \<Rightarrow> View \<Rightarrow> View" where
  "zoom_in z v = v\<lparr>zoom := zoom v * z\<rparr>"

text \<open>The three display styles, each built from a pointer to the display properties.\<close>

datatype Display = Display1 | Display2 | Display3

record DisplayProp =
  style :: int
  point_value :: fp

record PlayProp =
  period :: int
  report :: string

text \<open>The mouse-controlled \<^verbatim>\<open>Single\<close>: whether it is attached, and the norm of its force.\<close>

record Single =
  attached :: bool
  force_norm :: real

text \<open>What the player reads from the worker thread \<^verbatim>\<open>SimThread\<close>.\<close>

record SimThread =
  alive :: bool
  handle :: "Single option"
  currentFrame :: int

text \<open>A \<^verbatim>\<open>Space\<close> reports its extension; the simulation has a time and a list of spaces.\<close>

record Space =
  max_extension :: fp

record Simul =
  sim_time :: real
  spaces :: "Space list"

record Player =
  mDisplay :: "Display option"
  DP :: DisplayProp
  PP :: PlayProp
  goLive :: bool
  thread :: SimThread
  simul :: Simul

subsection \<open>What lies outside the file\<close>

text \<open>A \<^verbatim>\<open>Glossary\<close> holds the keys of a configuration text with their values.\<close>

type_synonym Glossary = "(string \<times> string) list"

text \<open>
  The functions that \<^verbatim>\<open>player_disp.cc\<close> calls and that are defined elsewhere are the
  fields of one record, so that every theorem holds for whatever they compute:
  \<^item> \<open>format_real\<close>: what \<^verbatim>\<open>operator<<\<close> writes for a \<^verbatim>\<open>real\<close> under
    \<^verbatim>\<open>std::fixed\<close> and \<^verbatim>\<open>precision(3)\<close>;
  \<^item> \<open>read_string\<close>: \<^verbatim>\<open>Glossary::read_string\<close>, which adds the definitions of a text
    to a glossary or throws; \<open>new_Glossary\<close>: the constructor from a text;
  \<^item> \<open>simul_report\<close>: the text that \<^verbatim>\<open>Simul::report\<close> writes, or what it throws;
  \<^item> \<open>DP_read\<close> and \<open>View_read\<close>: \<^verbatim>\<open>DisplayProp::read\<close> and \<^verbatim>\<open>View::read\<close>. They
    assign in place, so they give the object as they leave it and the exception, if any,
    that ends them;
  \<^item> \<open>pixelSize\<close>: \<^verbatim>\<open>View::pixelSize\<close>;
  \<^item> \<open>track_center\<close>, \<open>track_align\<close>, \<open>track_orient\<close>: what the three parts of
    \<^verbatim>\<open>autoTrack\<close> do to the view, from the statistics of the fibers;
  \<^item> \<open>prepareForDisplay\<close>: the exception, if any, that leaves
    \<^verbatim>\<open>Display::prepareForDisplay\<close>; \<open>DIM\<close>: the dimension the program is compiled for;
  \<^item> \<open>supported\<close>, \<open>saveMagnifiedImage\<close>, \<open>saveCompositeImage\<close>: the functions of
    \<^verbatim>\<open>SaveImage\<close>. The two that save take the arguments of the call in the order of
    the source, without the callback, and give the code they return, the number of
    times they call the callback, and the width and height of the image they write, if
    they write one.
\<close>

record Extern =
  format_real :: "real \<Rightarrow> string"
  read_string :: "Glossary \<Rightarrow> string \<Rightarrow> int \<Rightarrow> exception + Glossary"
  new_Glossary :: "string \<Rightarrow> exception + Glossary"
  simul_report :: "string \<Rightarrow> Glossary \<Rightarrow> exception + string"
  DP_read :: "Glossary \<Rightarrow> DisplayProp \<Rightarrow> DisplayProp \<times> exception option"
  View_read :: "Glossary \<Rightarrow> View \<Rightarrow> View \<times> exception option"
  pixelSize :: "View \<Rightarrow> fp"
  track_center :: "View \<Rightarrow> View"
  track_align :: "View \<Rightarrow> View"
  track_orient :: "View \<Rightarrow> View"
  prepareForDisplay :: "exception option"
  DIM :: nat
  supported :: "string \<Rightarrow> bool"
  saveMagnifiedImage ::
    "int \<Rightarrow> string \<Rightarrow> string \<Rightarrow> int \<Rightarrow> int \<Rightarrow> int \<Rightarrow> int \<times> nat \<times> (int \<times> int) option"
  saveCompositeImage ::
    "int \<Rightarrow> string \<Rightarrow> string \<Rightarrow> int \<Rightarrow> int \<Rightarrow> fp \<Rightarrow> int \<times> nat \<times> (int \<times> int) option"

subsection \<open>Events\<close>

text \<open>
  The calls that leave \<^verbatim>\<open>player_disp.cc\<close> are events, kept in the order of the program:
  the OpenGL calls of \<^verbatim>\<open>setStyle\<close>, the calls to the active style, the lock of the
  worker, the steps of a capture, the image written, the lines printed, the calls to the
  parser and to the reports of the simulation. \<open>SetPixelFactors\<close> has its two arguments as
  the call computes them, before their conversion to the types of the parameters.
\<close>

datatype event =
    GlPopAttrib
  | GlPushAttrib
  | InitGL nat
  | GlViewport int int int int
  | SetPixelFactors fp fp
  | SetStencil bool
  | PrepareForDisplay
  | Lock
  | Unlock
  | OpenDisplay
  | CloseDisplay
  | DisplayCytosim
  | ImageSaved string int int
  | PrintSaved int int string
  | PrintError string
  | ReadString string int
  | SimulReport string Glossary

subsection \<open>\<^verbatim>\<open>Player::setStyle\<close>\<close>

text \<open>
  The loop over \<^verbatim>\<open>glApp::views\<close> starts at index 1 and initialises each view that has a
  window: \<open>initViews n vs\<close> runs it on the views \<open>vs\<close>, the first of which has index \<open>n\<close>.
\<close>

fun initViews :: "nat \<Rightarrow> View list \<Rightarrow> event list" where
  "initViews n [] = []"
| "initViews n (v # vs) =
     (if window v > 0 then [InitGL n, GlViewport 0 0 (width v) (height v)] else [])
     @ initViews (Suc n) vs"

text \<open>The \<^verbatim>\<open>switch\<close>: the label \<^verbatim>\<open>default\<close> stands on the case 1.\<close>

definition newDisplay :: "int \<Rightarrow> Display" where
  "newDisplay s =
     (if s = 1 then Display1
      else if s = 2 then Display2
      else if s = 3 then Display3
      else Display1)"

definition setStyle :: "int \<Rightarrow> View list \<Rightarrow> Player \<Rightarrow> Player \<times> event list" where
  "setStyle s views p =
     (let pop = (case mDisplay p of Some d \<Rightarrow> [GlPopAttrib] | None \<Rightarrow> []);
          p1 = p\<lparr>mDisplay := None\<rparr>;
          p2 = p1\<lparr>mDisplay := Some (newDisplay s)\<rparr>;
          p3 = p2\<lparr>DP := (DP p2)\<lparr>style := s\<rparr>\<rparr>
      in (p3, pop @ [GlPushAttrib] @ initViews 1 (drop 1 views)))"

subsection \<open>\<^verbatim>\<open>Player::buildLabel\<close>\<close>

text \<open>The decimal digits that \<^verbatim>\<open>operator<<\<close> writes for an integer.\<close>

definition digit :: "nat \<Rightarrow> char" where
  "digit d = ''0123456789'' ! d"

fun show_nat :: "nat \<Rightarrow> string" where
  "show_nat n = (if n < 10 then [digit n] else show_nat (n div 10) @ [digit (n mod 10)])"

declare show_nat.simps [simp del]

definition show_int :: "int \<Rightarrow> string" where
  "show_int i = (if i < 0 then ''-'' @ show_nat (nat (- i)) else show_nat (nat i))"

text \<open>\<^verbatim>\<open>std::setw(8)\<close>: the next item is padded with spaces on the left to 8 characters.\<close>

definition setw :: "nat \<Rightarrow> string \<Rightarrow> string" where
  "setw n s = replicate (n - length s) (CHR '' '') @ s"

definition newline :: char where
  "newline = CHR 0x0A"

definition buildLabel :: "Extern \<Rightarrow> Player \<Rightarrow> string" where
  "buildLabel w p =
     setw 8 (format_real w (sim_time (simul p))) @ ''s''
     @ (case handle (thread p) of
          None \<Rightarrow> []
        | Some sh \<Rightarrow>
            if attached sh
            then [newline] @ ''Handle: '' @ format_real w (force_norm sh) @ ''pN''
            else [])
     @ (if alive (thread p) \<and> goLive p
        then [newline] @ ''Live''
             @ (if period (PP p) > 1 then '' '' @ show_int (period (PP p)) else [])
        else [newline] @ ''Frame '' @ show_int (currentFrame (thread p)))"

text \<open>
  The characters of a number written in fixed notation: digits, a sign, the point, and
  the letters of \<^verbatim>\<open>inf\<close> and \<^verbatim>\<open>nan\<close>.
\<close>

definition is_numeral :: "string \<Rightarrow> bool" where
  "is_numeral s = (set s \<subseteq> set ''-.0123456789infa'')"

text \<open>Whether the text \<open>s\<close> has \<open>sub\<close> as a substring.\<close>

definition contains :: "string \<Rightarrow> string \<Rightarrow> bool" where
  "contains s sub = sublist sub s"

text \<open>The characters that are neither \<open>L\<close> nor \<open>F\<close>.\<close>

definition plain :: "char set" where
  "plain = {c. c \<noteq> CHR ''L'' \<and> c \<noteq> CHR ''F''}"

subsection \<open>\<^verbatim>\<open>Player::buildReport\<close>\<close>

text \<open>
  \<^verbatim>\<open>std::string::find(c)\<close> gives the first position of \<open>c\<close>, or \<^verbatim>\<open>npos\<close>, here
  \<open>None\<close>. \<^verbatim>\<open>c_str()\<close> is read up to the first null character.
\<close>

definition find_char :: "char \<Rightarrow> string \<Rightarrow> nat option" where
  "find_char c s = (if c \<in> set s then Some (length (takeWhile (\<lambda>x. x \<noteq> c) s)) else None)"

definition c_str :: "string \<Rightarrow> string" where
  "c_str s = takeWhile (\<lambda>x. x \<noteq> CHR 0x00) s"

text \<open>
  The \<^verbatim>\<open>try\<close> block: the report is asked for, and a newline at the head of a text of
  more than one character is dropped; an exception gives its message as the text.
\<close>

definition reportText :: "Extern \<Rightarrow> string \<Rightarrow> Glossary \<Rightarrow> string" where
  "reportText w arg glos =
     (case simul_report w arg glos of
        Inr res \<Rightarrow> if length res > 1 \<and> res ! 0 = newline then drop 1 res else res
      | Inl e \<Rightarrow> what e)"

text \<open>The options are read before the \<^verbatim>\<open>try\<close> block: what the parser throws leaves the function.\<close>

definition buildReport :: "Extern \<Rightarrow> string \<Rightarrow> string result \<times> event list" where
  "buildReport w arg =
     (if arg \<noteq> [] then
        (case find_char (CHR '' '') arg of
           Some pos \<Rightarrow>
             (let opts = c_str (drop (pos + 1) arg) in
              case read_string w [] opts 2 of
                Inl e \<Rightarrow> (Throw e, [ReadString opts 2])
              | Inr glos \<Rightarrow>
                  (Return (reportText w (take pos arg) glos),
                   [ReadString opts 2, SimulReport (take pos arg) glos]))
         | None \<Rightarrow> (Return (reportText w arg []), [SimulReport arg []]))
      else (Return [], []))"

subsection \<open>\<^verbatim>\<open>Player::autoScale\<close> and \<^verbatim>\<open>Player::autoTrack\<close>\<close>

text \<open>\<^verbatim>\<open>std::max(a, b)\<close> is \<^verbatim>\<open>b\<close> when \<^verbatim>\<open>a < b\<close> and \<^verbatim>\<open>a\<close> otherwise.\<close>

definition std_max :: "fp \<Rightarrow> fp \<Rightarrow> fp" where
  "std_max a b = (if fp_less a b then b else a)"

text \<open>The loop over the spaces, from the value \<open>rad\<close>.\<close>

fun max_rad :: "fp \<Rightarrow> Space list \<Rightarrow> fp" where
  "max_rad rad [] = rad"
| "max_rad rad (spc # rest) = max_rad (std_max rad (max_extension spc)) rest"

text \<open>
  The product \<^verbatim>\<open>2*rad\<close> is one of the type \<^verbatim>\<open>real\<close>, narrowed by \<^verbatim>\<open>GLfloat\<close>; the
  decrement of the counter is the last statement.
\<close>

definition autoScale :: "Space list \<Rightarrow> View \<Rightarrow> View result" where
  "autoScale spcs view =
     (let rad = max_rad (Finite 0) spcs in
      if fp_less (Finite 0) rad then
        (let v1 = view\<lparr>view_size := GLfloat (fp_mul to_double (Finite 2) rad)\<rparr>;
             v2 = zoom_in 0.933033 v1
         in case c_dec (auto_scale v2) of
              None \<Rightarrow> Fault
            | Some c \<Rightarrow> Return (v2\<lparr>auto_scale := c\<rparr>))
      else Return view)"

text \<open>The three bits of \<open>track_fibers\<close> are tested in the order 1, 2, 4.\<close>

definition autoTrack :: "Extern \<Rightarrow> View \<Rightarrow> View" where
  "autoTrack w view =
     (let v1 = (if bit (track_fibers view) 0 then track_center w view else view);
          v2 = (if bit (track_fibers v1) 1 then track_align w v1 else v1)
      in if bit (track_fibers v2) 2 then track_orient w v2 else v2)"

subsection \<open>\<^verbatim>\<open>Player::prepareDisplay\<close> and \<^verbatim>\<open>Player::readDisplayString\<close>\<close>

text \<open>
  The call of \<^verbatim>\<open>setPixelFactors\<close>. The quotient \<^verbatim>\<open>pix/mag\<close> is one of \<^verbatim>\<open>GLfloat\<close>;
  \<^verbatim>\<open>mag*DP.point_value/pix\<close> is computed in the type \<^verbatim>\<open>real\<close>.
\<close>

definition pixelFactors :: "Extern \<Rightarrow> Player \<Rightarrow> View \<Rightarrow> int \<Rightarrow> event" where
  "pixelFactors w p view mag =
     (let pix = pixelSize w view in
      if fp_less (Finite 0) (point_value (DP p))
      then SetPixelFactors (fp_div to_float pix (to_float (of_int mag)))
             (fp_div to_double (fp_mul to_double (Finite (of_int mag)) (point_value (DP p))) pix)
      else SetPixelFactors (fp_div to_float pix (to_float (of_int mag))) (Finite (of_int mag)))"

text \<open>
  \<open>prepareDisplay\<close> gives the view as it leaves it, how it ends, and its events. Nothing
  catches what \<open>buildReport\<close> throws; a call through a null \<^verbatim>\<open>mDisplay\<close> is a fault.
\<close>

definition prepareDisplay :: "Extern \<Rightarrow> Player \<Rightarrow> View \<Rightarrow> int \<Rightarrow> View \<times> unit result \<times> event list" where
  "prepareDisplay w p view mag =
     (case (if auto_scale view > 0 then autoScale (spaces (simul p)) view else Return view) of
        Throw e \<Rightarrow> (view, Throw e, [])
      | Fault \<Rightarrow> (view, Fault, [])
      | Return v1 \<Rightarrow>
          (let v2 = (if track_fibers v1 \<noteq> 0 then autoTrack w v1 else v1);
               v3 = v2\<lparr>label := buildLabel w p\<rparr>
           in case buildReport w (report (PP p)) of
                (Throw e, tr) \<Rightarrow> (v3, Throw e, tr)
              | (Fault, tr) \<Rightarrow> (v3, Fault, tr)
              | (Return msg, tr) \<Rightarrow>
                  (let v4 = v3\<lparr>message := msg\<rparr> in
                   case mDisplay p of
                     None \<Rightarrow> (v4, Fault, tr)
                   | Some d \<Rightarrow>
                       (v4, Return (),
                        tr @ [pixelFactors w p v4 mag,
                              SetStencil (stencil v4 \<and> DIM w = 3),
                              PrepareForDisplay]
                           @ (case prepareForDisplay w of
                                None \<Rightarrow> []
                              | Some e \<Rightarrow>
                                  [PrintError (''Error in prepareDisplay: '' @ what e
                                     @ [newline])])))))"

text \<open>
  \<open>readDisplayString\<close>: the width and height are read after \<^verbatim>\<open>DP.read\<close> and written
  back after \<^verbatim>\<open>view.read\<close>, inside the \<^verbatim>\<open>try\<close> block. An exception from any of the
  three calls goes to the handler, which prints it, past the statements that follow.
\<close>

definition readDisplayString :: "Extern \<Rightarrow> DisplayProp \<Rightarrow> View \<Rightarrow> string \<Rightarrow> DisplayProp \<times> View \<times> event list" where
  "readDisplayString w dp view str =
     (case new_Glossary w str of
        Inl e \<Rightarrow> (dp, view, [PrintError (''Error while reading simul:display: '' @ what e)])
      | Inr glos \<Rightarrow>
          (case DP_read w glos dp of
             (dp1, Some e) \<Rightarrow>
               (dp1, view, [PrintError (''Error while reading simul:display: '' @ what e)])
           | (dp1, None) \<Rightarrow>
               (let W = width view; H = height view in
                case View_read w glos view of
                  (v1, Some e) \<Rightarrow>
                    (dp1, v1, [PrintError (''Error while reading simul:display: '' @ what e)])
                | (v1, None) \<Rightarrow>
                    (let v2 = v1\<lparr>window_size := (W, snd (window_size v1))\<rparr>;
                         v3 = v2\<lparr>window_size := (fst (window_size v2), H)\<rparr>
                     in (dp1, v3, [])))))"

subsection \<open>\<^verbatim>\<open>Player::saveViewMagnified\<close>\<close>

text \<open>
  The arguments of the line printed after a direct capture: \<^verbatim>\<open>mag*W/downsample\<close> and
  \<^verbatim>\<open>mag*H/downsample\<close> in the arithmetic of \<^verbatim>\<open>int\<close>.
\<close>

definition scaled :: "int \<Rightarrow> int \<Rightarrow> int \<Rightarrow> int option" where
  "scaled mag W downsample =
     (case c_mul mag W of None \<Rightarrow> None | Some x \<Rightarrow> c_div x downsample)"

text \<open>
  The callback \<^verbatim>\<open>displayMagnified\<close> calls \<^verbatim>\<open>displayCytosim\<close>, which catches what the
  drawing throws: each call of the callback is one event \<open>DisplayCytosim\<close>. The image
  that a function of \<^verbatim>\<open>SaveImage\<close> writes is one event \<open>ImageSaved\<close>, after its tiles.
\<close>

definition written :: "string \<Rightarrow> (int \<times> int) option \<Rightarrow> event list" where
  "written name img = (case img of None \<Rightarrow> [] | Some (a, b) \<Rightarrow> [ImageSaved name a b])"

definition saveViewMagnified ::
  "Extern \<Rightarrow> Player \<Rightarrow> View \<Rightarrow> int \<Rightarrow> string \<Rightarrow> string \<Rightarrow> int \<Rightarrow> int result \<times> View \<times> event list" where
  "saveViewMagnified w p view mag name format downsample =
     (if \<not> supported w format then
        (Return (- 1), view,
         [PrintError (''Error unsupported image format `'' @ format @ [CHR 0x27, newline])])
      else
        (let W = width view; H = height view in
         case prepareDisplay w p view mag of
           (v1, Throw e, tr) \<Rightarrow> (Throw e, v1, [Lock] @ tr)
         | (v1, Fault, tr) \<Rightarrow> (Fault, v1, [Lock] @ tr)
         | (v1, Return u, tr) \<Rightarrow>
             (case saveMagnifiedImage w mag name format W H downsample of
                (err, n, img) \<Rightarrow>
                  if err \<noteq> 0 then
                    (case saveCompositeImage w mag name format W H (pixelSize w v1) of
                       (err2, m, img2) \<Rightarrow>
                         (Return err2, v1,
                          [Lock] @ tr @ [OpenDisplay]
                          @ replicate n DisplayCytosim @ written name img
                          @ replicate m DisplayCytosim @ written name img2
                          @ (if err2 = 0 then [PrintSaved W H name] else [])
                          @ [CloseDisplay, Unlock]))
                  else
                    (case (scaled mag W downsample, scaled mag H downsample) of
                       (Some a, Some b) \<Rightarrow>
                         (Return err, v1,
                          [Lock] @ tr @ [OpenDisplay]
                          @ replicate n DisplayCytosim @ written name img
                          @ [PrintSaved a b name] @ [CloseDisplay, Unlock])
                     | _ \<Rightarrow>
                         (Fault, v1,
                          [Lock] @ tr @ [OpenDisplay]
                          @ replicate n DisplayCytosim @ written name img)))))"


text \<open>
  Modelled from the spec: \<^verbatim>\<open>SaveImage::saveMagnifiedImage\<close> and
  \<^verbatim>\<open>SaveImage::saveCompositeImage\<close> are not in the source files. The spec says that the
  direct capture draws tiles of the size of the viewport that together cover a virtual
  framebuffer scaled by the magnification, and assembles them into one image of
  magnification times viewport size over downsample pixels, unless the backend does not
  support it; and that the composite capture renders the same tiles and assembles them
  into a single image. The composite capture is not given the downsample factor: its
  image is the virtual framebuffer, magnification times the viewport. A size that the
  type \<^verbatim>\<open>int\<close> cannot hold is a failure.
\<close>

definition spec_saveMagnifiedImage ::
  "bool \<Rightarrow> int \<Rightarrow> string \<Rightarrow> string \<Rightarrow> int \<Rightarrow> int \<Rightarrow> int \<Rightarrow> int \<times> nat \<times> (int \<times> int) option" where
  "spec_saveMagnifiedImage direct mag name format W H downsample =
     (if \<not> direct then (1, 0, None)
      else (case (scaled mag W downsample, scaled mag H downsample) of
              (Some a, Some b) \<Rightarrow> (0, nat (mag * mag), Some (a, b))
            | _ \<Rightarrow> (1, 0, None)))"

definition spec_saveCompositeImage ::
  "int \<Rightarrow> string \<Rightarrow> string \<Rightarrow> int \<Rightarrow> int \<Rightarrow> fp \<Rightarrow> int \<times> nat \<times> (int \<times> int) option" where
  "spec_saveCompositeImage mag name format W H pix =
     (case (c_mul mag W, c_mul mag H) of
        (Some a, Some b) \<Rightarrow> (0, nat (mag * mag), Some (a, b))
      | _ \<Rightarrow> (1, 0, None))"


text \<open>
  The events that are neither the lock, nor a step of the capture, nor an image written,
  nor a line that reports a size: those of the parser, of the reports, of the active
  style, and the errors printed.
\<close>

definition quiet :: "event \<Rightarrow> bool" where
  "quiet e = (case e of
      Lock \<Rightarrow> False | Unlock \<Rightarrow> False | DisplayCytosim \<Rightarrow> False
    | OpenDisplay \<Rightarrow> False | CloseDisplay \<Rightarrow> False | PrintSaved a b n \<Rightarrow> False
    | ImageSaved n a b \<Rightarrow> False
    | _ \<Rightarrow> True)"

subsection \<open>The worker and the lock\<close>

text \<open>
  Modelled from the spec: the worker thread is not in the source files. The spec says it
  advances the simulation on its own and that the lock excludes it: it changes the
  state between the windows in which the player holds the lock, never inside one. The
  state is a counter that each step of the worker increases. A schedule gives, for each
  event of the player in turn, the number of steps that the worker tries to take before
  it; they are taken when the lock is free. \<open>observe held c tr sched\<close> is the list of the
  counter values that the calls of \<open>DisplayCytosim\<close> in \<open>tr\<close> see.
\<close>

fun observe :: "bool \<Rightarrow> nat \<Rightarrow> event list \<Rightarrow> nat list \<Rightarrow> nat list" where
  "observe held c [] sched = []"
| "observe held c (e # es) sched =
     (let k = (case sched of [] \<Rightarrow> 0 | k # ks \<Rightarrow> k);
          c1 = (if held then c else c + k);
          held1 = (if e = Lock then True else if e = Unlock then False else held)
      in (if e = DisplayCytosim then [c1] else []) @ observe held1 c1 es (drop 1 sched))"

subsection \<open>Sample values\<close>

text \<open>
  A number in fixed notation with three decimals, for the examples: the value is rounded
  to thousandths.
\<close>

definition fixed3 :: "real \<Rightarrow> string" where
  "fixed3 x =
     (let n = round (x * 1000); m = nat \<bar>n\<bar>; frac = show_nat (m mod 1000)
      in (if n < 0 then ''-'' else []) @ show_nat (m div 1000) @ ''.''
         @ replicate (3 - length frac) (CHR ''0'') @ frac)"

text \<open>
  A parser for the examples: the text is a list of definitions \<^verbatim>\<open>key=value\<close> with
  semicolons between them; an item without the sign \<^verbatim>\<open>=\<close> is an error.
\<close>

fun fields :: "char \<Rightarrow> string \<Rightarrow> string list" where
  "fields c [] = [[]]"
| "fields c (x # xs) =
     (if x = c then [] # fields c xs
      else (case fields c xs of [] \<Rightarrow> [[x]] | f # fs \<Rightarrow> (x # f) # fs))"

definition key_value :: "string \<Rightarrow> string \<times> string" where
  "key_value item =
     (takeWhile (\<lambda>x. x \<noteq> CHR ''='') item, drop 1 (dropWhile (\<lambda>x. x \<noteq> CHR ''='') item))"

definition read_pairs :: "Glossary \<Rightarrow> string \<Rightarrow> int \<Rightarrow> exception + Glossary" where
  "read_pairs glos s n =
     (if list_all (\<lambda>item. CHR ''='' \<in> set item) (fields (CHR '';'') s)
      then Inr (glos @ map key_value (fields (CHR '';'') s))
      else Inl (Exception ''missing =''))"

definition new_pairs :: "string \<Rightarrow> exception + Glossary" where
  "new_pairs s = read_pairs [] s 0"

text \<open>A report that is a single newline for the kind \<^verbatim>\<open>empty\<close>, and two lines otherwise.\<close>

definition report_lines :: "string \<Rightarrow> Glossary \<Rightarrow> exception + string" where
  "report_lines kind glos =
     (if kind = ''empty'' then Inr [newline]
      else if kind = ''fiber'' then Inr ([newline] @ ''fibers 12'')
      else Inl (Exception ''unknown report''))"

text \<open>Reading that leaves the object as it is.\<close>

definition DP_read_none :: "Glossary \<Rightarrow> DisplayProp \<Rightarrow> DisplayProp \<times> exception option" where
  "DP_read_none glos dp = (dp, None)"

text \<open>
  A \<^verbatim>\<open>View::read\<close> for the examples. It sets the window size to 1024 by 768 when the
  glossary has the key \<^verbatim>\<open>window_size\<close>, then the zoom when it has the key \<^verbatim>\<open>zoom\<close>,
  and throws when the value of the zoom is not \<^verbatim>\<open>2\<close>.
\<close>

definition View_read_keys :: "Glossary \<Rightarrow> View \<Rightarrow> View \<times> exception option" where
  "View_read_keys glos view =
     (let v1 = (if map_of glos ''window_size'' \<noteq> None
                then view\<lparr>window_size := (1024, 768)\<rparr> else view)
      in case map_of glos ''zoom'' of
           None \<Rightarrow> (v1, None)
         | Some val \<Rightarrow>
             if val = ''2'' then (v1\<lparr>zoom := 2\<rparr>, None)
             else (v1, Some (Exception ''could not set zoom'')))"

definition pixel_unit :: "View \<Rightarrow> fp" where
  "pixel_unit v = fp_div to_float (view_size v) (to_float (of_int (fst (window_size v))))"

definition keep_view :: "View \<Rightarrow> View" where
  "keep_view v = v"

definition is_png :: "string \<Rightarrow> bool" where
  "is_png format = (format = ''png'')"

definition extern0 :: Extern where
  "extern0 = \<lparr>format_real = fixed3, read_string = read_pairs, new_Glossary = new_pairs,
     simul_report = report_lines, DP_read = DP_read_none, View_read = View_read_keys,
     pixelSize = pixel_unit, track_center = keep_view, track_align = keep_view,
     track_orient = keep_view, prepareForDisplay = None, DIM = 2, supported = is_png,
     saveMagnifiedImage = spec_saveMagnifiedImage True,
     saveCompositeImage = spec_saveCompositeImage\<rparr>"


text \<open>
  The value of the type \<^verbatim>\<open>real\<close> nearest to one tenth, and a space of this extension.
\<close>

definition tenth :: real where
  "tenth = 3602879701896397 / 36028797018963968"

definition space_tenth :: Space where
  "space_tenth = \<lparr>max_extension = Finite tenth\<rparr>"

text \<open>A view of 800 by 600 pixels and a player that shows style 3.\<close>

definition view0 :: View where
  "view0 = \<lparr>window = 1, window_size = (800, 600), view_size = Finite 10, zoom = 1,
     auto_scale = 2, track_fibers = 0, stencil = False, label = [], message = []\<rparr>"

definition player0 :: Player where
  "player0 = \<lparr>mDisplay = Some Display3, DP = \<lparr>style = 3, point_value = Finite 0\<rparr>,
     PP = \<lparr>period = 1, report = []\<rparr>, goLive = False,
     thread = \<lparr>alive = False, handle = None, currentFrame = 0\<rparr>,
     simul = \<lparr>sim_time = 0, spaces = [\<lparr>max_extension = Finite 5\<rparr>]\<rparr>\<rparr>"

section \<open>Theorems\<close>

subsection \<open>Style selection\<close>

text \<open>
  C5. For every style id that is not 1, 2 or 3, \<open>setStyle\<close> builds the variant it
  builds for the id 1, which is \<open>Display1\<close>, with the same OpenGL calls; the two
  resulting players differ in the recorded style tag only. The function has no path that
  raises: for every id it returns a player.
\<close>

theorem setStyle_default_variant:
  "s \<notin> {1, 2, 3} \<Longrightarrow>
     mDisplay (fst (setStyle s views p)) = Some Display1
   \<and> mDisplay (fst (setStyle s views p)) = mDisplay (fst (setStyle 1 views p))
   \<and> snd (setStyle s views p) = snd (setStyle 1 views p)
   \<and> fst (setStyle s views p)
       = (fst (setStyle 1 views p))\<lparr>DP := (DP (fst (setStyle 1 views p)))\<lparr>style := s\<rparr>\<rparr>"
  by (simp add: setStyle_def newDisplay_def Let_def)

theorem setStyle_default_variant_witness:
  "(7::int) \<notin> {1, 2, 3}
   \<and> mDisplay (fst (setStyle 7 [view0] player0)) = Some Display1
   \<and> mDisplay (fst (setStyle 7 [view0] player0)) = mDisplay (fst (setStyle 1 [view0] player0))"
proof -
  have h: "(7::int) \<notin> {1, 2, 3}" by simp
  from setStyle_default_variant [OF h, of "[view0]" player0] h show ?thesis by blast
qed

text \<open>
  C10. After \<open>setStyle s\<close> the recorded style tag is the requested value \<open>s\<close>, for every
  integer \<open>s\<close>. For an id that is not 1, 2 or 3 the active variant is \<open>Display1\<close> while
  the tag is not 1: the tag and the variant disagree.
\<close>

theorem setStyle_records_raw_tag:
  "style (DP (fst (setStyle s views p))) = s
   \<and> (s \<notin> {1, 2, 3} \<longrightarrow>
        mDisplay (fst (setStyle s views p)) = Some Display1
      \<and> style (DP (fst (setStyle s views p))) \<noteq> 1)"
  by (simp add: setStyle_def newDisplay_def Let_def)

theorem setStyle_records_raw_tag_witness:
  "(0::int) \<notin> {1, 2, 3}
   \<and> style (DP (fst (setStyle 0 [view0] player0))) = 0
   \<and> mDisplay (fst (setStyle 0 [view0] player0)) = Some Display1"
proof -
  have h: "(0::int) \<notin> {1, 2, 3}" by simp
  from setStyle_records_raw_tag [of 0 "[view0]" player0] h show ?thesis by blast
qed

subsection \<open>The label\<close>

lemma no_head_skip: "x \<notin> set a \<Longrightarrow> sublist (x # xs) (a @ b) = sublist (x # xs) b"
proof (induction a)
  case Nil
  then show ?case by simp
next
  case (Cons y a)
  then have "x \<noteq> y" and "x \<notin> set a" by simp_all
  have "sublist (x # xs) ((y # a) @ b) = (prefix (x # xs) (y # (a @ b)) \<or> sublist (x # xs) (a @ b))"
    by (simp add: sublist_Cons_right)
  also have "\<dots> = sublist (x # xs) (a @ b)" using \<open>x \<noteq> y\<close> by simp
  finally show ?case using Cons.IH [OF \<open>x \<notin> set a\<close>] by simp
qed

lemma no_head_none: "x \<notin> set a \<Longrightarrow> \<not> sublist (x # xs) a"
  using no_head_skip [of x a xs "[]"] by simp

lemma digit_in: "d < 10 \<Longrightarrow> digit d \<in> set ''0123456789''"
  unfolding digit_def by (rule nth_mem) simp

lemma show_nat_in:
  assumes S: "\<And>d. d < 10 \<Longrightarrow> digit d \<in> S"
  shows "set (show_nat n) \<subseteq> S"
proof (induction n rule: show_nat.induct)
  case (1 n)
  show ?case
  proof (cases "n < 10")
    case True
    then have "show_nat n = [digit n]" by (simp add: show_nat.simps [of n])
    with True S show ?thesis by simp
  next
    case False
    then have eq: "show_nat n = show_nat (n div 10) @ [digit (n mod 10)]"
      by (simp add: show_nat.simps [of n])
    have "digit (n mod 10) \<in> S" by (rule S) simp
    moreover have "set (show_nat (n div 10)) \<subseteq> S" using False by (rule 1)
    ultimately show ?thesis unfolding eq by simp
  qed
qed

lemma digit_plain: "d < 10 \<Longrightarrow> digit d \<in> plain"
  using digit_in [of d] by (auto simp: plain_def)

lemma show_int_plain: "set (show_int i) \<subseteq> plain"
proof -
  have "CHR ''-'' \<in> plain" by (simp add: plain_def)
  moreover have "set (show_nat n) \<subseteq> plain" for n
    by (rule show_nat_in) (rule digit_plain)
  ultimately show ?thesis by (simp add: show_int_def)
qed

lemma numeral_plain: "is_numeral s \<Longrightarrow> set s \<subseteq> plain"
proof -
  assume "is_numeral s"
  then have "set s \<subseteq> set ''-.0123456789infa''" by (simp only: is_numeral_def)
  moreover have "set ''-.0123456789infa'' \<subseteq> plain" by (simp add: plain_def)
  ultimately show ?thesis by (rule subset_trans)
qed

lemma setw_plain: "set s \<subseteq> plain \<Longrightarrow> set (setw n s) \<subseteq> plain"
  by (auto simp: setw_def plain_def)

lemma handle_text_plain:
  "set f \<subseteq> plain \<Longrightarrow> set ([newline] @ ''Handle: '' @ f @ ''pN'') \<subseteq> plain"
  by (auto simp: plain_def newline_def)

lemma label_shape:
  assumes num: "\<forall>x. is_numeral (format_real w x)"
  shows "\<exists>pre suf. set pre \<subseteq> plain \<and> set suf \<subseteq> plain
           \<and> buildLabel w p
               = pre @ (if alive (thread p) \<and> goLive p then ''Live'' else ''Frame'') @ suf"
proof -
  define hp where "hp = (case handle (thread p) of
          None \<Rightarrow> []
        | Some sh \<Rightarrow>
            if attached sh
            then [newline] @ ''Handle: '' @ format_real w (force_norm sh) @ ''pN''
            else [])"
  define head where "head = setw 8 (format_real w (sim_time (simul p))) @ ''s'' @ hp"
  have fmt: "set (format_real w x) \<subseteq> plain" for x
    using num by (simp add: numeral_plain)
  have nl: "newline \<in> plain" by (simp add: plain_def newline_def)
  have hp: "set hp \<subseteq> plain"
  proof (cases "handle (thread p)")
    case None
    then show ?thesis by (simp add: hp_def)
  next
    case (Some sh)
    show ?thesis
    proof (cases "attached sh")
      case True
      with Some have "hp = [newline] @ ''Handle: '' @ format_real w (force_norm sh) @ ''pN''"
        by (simp add: hp_def)
      then show ?thesis using handle_text_plain [OF fmt] by simp
    next
      case False
      with Some show ?thesis by (simp add: hp_def)
    qed
  qed
  have "set (setw 8 (format_real w (sim_time (simul p)))) \<subseteq> plain"
    by (rule setw_plain) (rule fmt)
  moreover have "CHR ''s'' \<in> plain" by (simp add: plain_def)
  ultimately have head: "set (head @ [newline]) \<subseteq> plain"
    using hp nl by (simp add: head_def)
  have sp: "CHR '' '' \<in> plain" by (simp add: plain_def)
  show ?thesis
  proof (cases "alive (thread p) \<and> goLive p")
    case True
    define suf where "suf = (if period (PP p) > 1 then '' '' @ show_int (period (PP p)) else [])"
    have "set suf \<subseteq> plain" using sp show_int_plain [of "period (PP p)"] by (auto simp: suf_def)
    moreover have "buildLabel w p = (head @ [newline]) @ ''Live'' @ suf"
      using True by (simp add: buildLabel_def head_def hp_def suf_def)
    ultimately show ?thesis using True head by (intro exI [of _ "head @ [newline]"] exI [of _ suf]) simp
  next
    case False
    define suf where "suf = '' '' @ show_int (currentFrame (thread p))"
    have "set suf \<subseteq> plain" using sp show_int_plain [of "currentFrame (thread p)"] by (auto simp: suf_def)
    moreover have "buildLabel w p = (head @ [newline]) @ ''Frame'' @ suf"
      using False by (simp add: buildLabel_def head_def hp_def suf_def)
    ultimately show ?thesis using False head by (intro exI [of _ "head @ [newline]"] exI [of _ suf]) simp
  qed
qed

lemma word_between:
  assumes "set pre \<subseteq> plain" "set suf \<subseteq> plain"
  shows "sublist ''Live'' (pre @ ''Live'' @ suf)"
    and "\<not> sublist ''Frame'' (pre @ ''Live'' @ suf)"
    and "sublist ''Frame'' (pre @ ''Frame'' @ suf)"
    and "\<not> sublist ''Live'' (pre @ ''Frame'' @ suf)"
proof -
  show "sublist ''Live'' (pre @ ''Live'' @ suf)" by (rule sublist_appendI)
  show "sublist ''Frame'' (pre @ ''Frame'' @ suf)" by (rule sublist_appendI)
  have "CHR ''F'' \<notin> set (pre @ ''Live'' @ suf)" using assms by (auto simp: plain_def)
  then show "\<not> sublist ''Frame'' (pre @ ''Live'' @ suf)" by (rule no_head_none)
  have "CHR ''L'' \<notin> set (pre @ ''Frame'' @ suf)" using assms by (auto simp: plain_def)
  then show "\<not> sublist ''Live'' (pre @ ''Frame'' @ suf)" by (rule no_head_none)
qed

text \<open>
  C6. Whatever the numbers of the label are written as, as long as they are written in
  fixed notation, the label has the substring \<open>Live\<close> exactly when the worker is alive
  and the player is in live mode, and the substring \<open>Frame\<close> exactly when not: in every
  state it has one of the two and not the other.
\<close>

theorem buildLabel_Live_xor_Frame:
  assumes "\<forall>x. is_numeral (format_real w x)"
  shows "(contains (buildLabel w p) ''Live'' \<longleftrightarrow> alive (thread p) \<and> goLive p)
       \<and> (contains (buildLabel w p) ''Frame'' \<longleftrightarrow> \<not> (alive (thread p) \<and> goLive p))
       \<and> contains (buildLabel w p) ''Live'' \<noteq> contains (buildLabel w p) ''Frame''"
proof -
  from label_shape [OF assms, of p] obtain pre suf where
    ps: "set pre \<subseteq> plain" "set suf \<subseteq> plain" and
    eq: "buildLabel w p = pre @ (if alive (thread p) \<and> goLive p then ''Live'' else ''Frame'') @ suf"
    by blast
  show ?thesis
  proof (cases "alive (thread p) \<and> goLive p")
    case True
    with eq have "buildLabel w p = pre @ ''Live'' @ suf" by simp
    with word_between(1,2) [OF ps] True show ?thesis by (simp add: contains_def)
  next
    case False
    with eq have "buildLabel w p = pre @ ''Frame'' @ suf" by simp
    with word_between(3,4) [OF ps] False show ?thesis by (simp add: contains_def)
  qed
qed

lemma fixed3_numeral: "is_numeral (fixed3 x)"
proof -
  define S where "S = set ''-.0123456789infa''"
  have d: "digit d \<in> S" if "d < 10" for d
    using digit_in [OF that] by (auto simp: S_def)
  have n: "set (show_nat n) \<subseteq> S" for n
    by (rule show_nat_in) (rule d)
  have c: "CHR ''-'' \<in> S" "CHR ''.'' \<in> S" "CHR ''0'' \<in> S"
    by (simp_all add: S_def)
  have "set (fixed3 x) \<subseteq> S"
    unfolding fixed3_def Let_def using n c by auto
  then show ?thesis by (simp only: is_numeral_def S_def)
qed

theorem buildLabel_Live_xor_Frame_witness:
  "(\<forall>x. is_numeral (format_real extern0 x))
   \<and> contains (buildLabel extern0 player0) ''Frame''
   \<and> \<not> contains (buildLabel extern0 player0) ''Live''"
proof -
  have h: "\<forall>x. is_numeral (format_real extern0 x)"
    by (simp add: extern0_def fixed3_numeral)
  have "\<not> (alive (thread player0) \<and> goLive player0)" by (simp add: player0_def)
  with buildLabel_Live_xor_Frame [OF h, of player0] h show ?thesis by blast
qed

subsection \<open>The report\<close>

text \<open>
  C7. For the empty text \<open>buildReport\<close> returns the empty text, and it has no event: the
  parser is not called and no report is asked of the simulation.
\<close>

theorem buildReport_empty: "buildReport w [] = (Return [], [])"
  by (simp add: buildReport_def)

text \<open>
  C8, as stated, fails twice. A report that is a single newline comes back as it is, not
  with the newline removed: the test is on a text of more than one character. And the
  options are read outside the \<^verbatim>\<open>try\<close> block: when the parser throws on the options
  \<^verbatim>\<open>x\<close>, the exception leaves \<open>buildReport\<close>.
\<close>

theorem buildReport_counterexample:
  "simul_report extern0 ''empty'' [] = Inr [newline]
   \<and> fst (buildReport extern0 ''empty'') = Return [newline]
   \<and> read_string extern0 [] ''x'' 2 = Inl (Exception ''missing ='')
   \<and> fst (buildReport extern0 ''fiber x'') = Throw (Exception ''missing ='')"
  by (simp add: buildReport_def reportText_def find_char_def c_str_def extern0_def
      report_lines_def read_pairs_def)

text \<open>
  C8, amended. Take a text that is not empty and whose options, if it has a space, are
  read without an exception; \<open>kind\<close> is the text before the first space and \<open>glos\<close> the
  glossary read. When the report succeeds with a text of more than one character that
  starts with a newline, \<open>buildReport\<close> returns the text without its first character; when
  it succeeds with any other text, the text as it is; when it throws, the message of the
  exception.
\<close>

theorem buildReport_strips_or_describes:
  assumes "arg \<noteq> []"
      and "(find_char (CHR '' '') arg = None \<and> kind = arg \<and> glos = [])
         \<or> (\<exists>pos. find_char (CHR '' '') arg = Some pos \<and> kind = take pos arg
              \<and> read_string w [] (c_str (drop (pos + 1) arg)) 2 = Inr glos)"
  shows "(\<forall>res. simul_report w kind glos = Inr res \<longrightarrow>
            fst (buildReport w arg)
              = Return (if length res > 1 \<and> hd res = newline then tl res else res))
       \<and> (\<forall>e. simul_report w kind glos = Inl e \<longrightarrow>
            fst (buildReport w arg) = Return (what e))"
proof -
  have rt: "fst (buildReport w arg) = Return (reportText w kind glos)"
    using assms by (auto simp: buildReport_def Let_def)
  have "reportText w kind glos = (if length res > 1 \<and> hd res = newline then tl res else res)"
    if "simul_report w kind glos = Inr res" for res
    using that by (cases res) (simp_all add: reportText_def drop_Suc)
  moreover have "reportText w kind glos = what e" if "simul_report w kind glos = Inl e" for e
    using that by (simp add: reportText_def)
  ultimately show ?thesis using rt by simp
qed

theorem buildReport_strips_or_describes_witness:
  "''fiber x=1'' \<noteq> []
   \<and> find_char (CHR '' '') ''fiber x=1'' = Some 5
   \<and> ''fiber'' = take 5 ''fiber x=1''
   \<and> read_string extern0 [] (c_str (drop (5 + 1) ''fiber x=1'')) 2 = Inr [(''x'', ''1'')]
   \<and> simul_report extern0 ''fiber'' [(''x'', ''1'')] = Inr (newline # ''fibers 12'')
   \<and> fst (buildReport extern0 ''fiber x=1'') = Return ''fibers 12''"
proof -
  have a: "''fiber x=1'' \<noteq> []" by simp
  have b: "find_char (CHR '' '') ''fiber x=1'' = Some 5" by (simp add: find_char_def)
  have c: "''fiber'' = take 5 ''fiber x=1''" by simp
  have d: "read_string extern0 [] (c_str (drop (5 + 1) ''fiber x=1'')) 2 = Inr [(''x'', ''1'')]"
    by (simp add: extern0_def read_pairs_def c_str_def key_value_def)
  have e: "simul_report extern0 ''fiber'' [(''x'', ''1'')] = Inr (newline # ''fibers 12'')"
    by (simp add: extern0_def report_lines_def)
  have "(find_char (CHR '' '') ''fiber x=1'' = None \<and> ''fiber'' = ''fiber x=1'' \<and> [(''x'', ''1'')] = [])
         \<or> (\<exists>pos. find_char (CHR '' '') ''fiber x=1'' = Some pos \<and> ''fiber'' = take pos ''fiber x=1''
              \<and> read_string extern0 [] (c_str (drop (pos + 1) ''fiber x=1'')) 2 = Inr [(''x'', ''1'')])"
    using b c d by blast
  from buildReport_strips_or_describes [OF a this] e
  have "fst (buildReport extern0 ''fiber x=1'') = Return ''fibers 12''" by simp
  with a b c d e show ?thesis by blast
qed

subsection \<open>Floating-point values\<close>

text \<open>The exponent that \<open>round_to\<close> uses is the binary exponent.\<close>

lemma bits_bounds: "0 < n \<Longrightarrow> 2 ^ (bits n - 1) \<le> n \<and> n < 2 ^ bits n"
proof (induction n rule: bits.induct)
  case (1 n)
  then have pos: "0 < n" by simp
  then have b: "bits n = Suc (bits (n div 2))" by (simp add: bits.simps [of n])
  show ?case
  proof (cases "n div 2 = 0")
    case True
    with pos have "n = 1" by presburger
    then show ?thesis by (simp add: bits.simps [of 1] bits.simps [of 0])
  next
    case False
    with pos have h: "0 < n div 2" by presburger
    with 1(1) pos have ih: "2 ^ (bits (n div 2) - 1) \<le> n div 2 \<and> n div 2 < 2 ^ bits (n div 2)"
      by simp
    have "0 < bits (n div 2)" using h by (simp add: bits.simps [of "n div 2"])
    then obtain k where k: "bits (n div 2) = Suc k" by (cases "bits (n div 2)") simp_all
    from ih k have "2 * 2 ^ k \<le> 2 * (n div 2)" "2 * (n div 2) + 2 \<le> 2 * (2 * 2 ^ k)" by simp_all
    moreover have "2 * (n div 2) \<le> n" "n < 2 * (n div 2) + 2" by presburger+
    ultimately have "2 * 2 ^ k \<le> n" "n < 2 * (2 * 2 ^ k)" by linarith+
    then show ?thesis by (simp add: b k)
  qed
qed

lemma pow2_add1: "pow2 (k + 1) = 2 * pow2 k"
proof (cases "0 \<le> k")
  case True
  then show ?thesis by (simp add: pow2_def nat_add_distrib)
next
  case False
  then have "nat (- k) = Suc (nat (- (k + 1)))" by simp
  then show ?thesis using False by (simp add: pow2_def)
qed

lemma exponent_bounds:
  assumes "0 < x"
  shows "pow2 (exponent x) \<le> x \<and> x < pow2 (exponent x + 1)"
proof (cases "1 \<le> x")
  case True
  define n where "n = \<lfloor>x\<rfloor>"
  have n: "0 < n" using True by (simp add: n_def)
  from bits_bounds [OF n] have lo: "2 ^ (bits n - 1) \<le> n" and hi: "n < 2 ^ bits n" by simp_all
  have bp: "0 < bits n" using n by (simp add: bits.simps [of n])
  have e: "exponent x = int (bits n) - 1" using True by (simp add: exponent_def n_def)
  have "real_of_int (2 ^ (bits n - 1)) \<le> real_of_int n" using lo by (simp only: of_int_le_iff)
  also have "\<dots> \<le> x" by (simp add: n_def)
  finally have 1: "pow2 (exponent x) \<le> x" using bp by (simp add: e pow2_def nat_diff_distrib')
  have "n + 1 \<le> 2 ^ bits n" using hi by simp
  then have "real_of_int (n + 1) \<le> real_of_int (2 ^ bits n)" by (simp only: of_int_le_iff)
  moreover have "x < real_of_int (n + 1)" by (simp add: n_def)
  ultimately have 2: "x < pow2 (exponent x + 1)" by (simp add: e pow2_def)
  from 1 2 show ?thesis by simp
next
  case False
  with assms have x: "0 < x" "x < 1" by simp_all
  define n where "n = \<lceil>1 / x\<rceil> - 1"
  have inv: "1 < 1 / x" using x by simp
  then have n: "0 < n" unfolding n_def by linarith
  have below: "real_of_int n < 1 / x" unfolding n_def by linarith
  have above: "1 / x \<le> real_of_int n + 1" unfolding n_def by linarith
  from bits_bounds [OF n] have lo: "2 ^ (bits n - 1) \<le> n" and hi: "n < 2 ^ bits n" by simp_all
  have bp: "0 < bits n" using n by (simp add: bits.simps [of n])
  have e: "exponent x = - int (bits n)" using False by (simp add: exponent_def n_def)
  have "n + 1 \<le> 2 ^ bits n" using hi by simp
  then have "real_of_int (n + 1) \<le> real_of_int (2 ^ bits n)" by (simp only: of_int_le_iff)
  with above have "1 / x \<le> 2 ^ bits n" by simp
  then have 1: "1 / 2 ^ bits n \<le> x" using x by (simp add: field_simps)
  have "(2::real) ^ (bits n - 1) \<le> real_of_int n"
  proof -
    from lo have "real_of_int (2 ^ (bits n - 1)) \<le> real_of_int n" by (simp only: of_int_le_iff)
    then show ?thesis by simp
  qed
  with below have "2 ^ (bits n - 1) < 1 / x" by linarith
  then have 2: "x < 1 / 2 ^ (bits n - 1)" using x by (simp add: field_simps)
  obtain k where k: "bits n = Suc k" using bp by (cases "bits n") simp_all
  have "nat (int k + 1) = Suc k" by simp
  then have p: "pow2 (exponent x) = 1 / (2 * 2 ^ k)" by (simp add: e k pow2_def)
  then have "pow2 (exponent x + 1) = 1 / 2 ^ k" by (simp add: pow2_add1)
  with p 1 2 show ?thesis by (simp add: k)
qed

subsection \<open>Camera automation\<close>

lemma fp_less_asym: "fp_less a b \<Longrightarrow> \<not> fp_less b a"
  by (cases a; cases b) simp_all

lemma fp_less_not_NaN: "fp_less a b \<Longrightarrow> a \<noteq> NaN \<and> b \<noteq> NaN"
  by (cases a; cases b) simp_all

lemma fp_equal: "a \<noteq> NaN \<Longrightarrow> b \<noteq> NaN \<Longrightarrow> \<not> fp_less a b \<Longrightarrow> \<not> fp_less b a \<Longrightarrow> a = b"
  by (cases a; cases b) simp_all

lemma max_rad_bounded:
  "\<forall>s \<in> set spcs. \<not> fp_less rad (max_extension s) \<Longrightarrow> max_rad rad spcs = rad"
  by (induction spcs) (simp_all add: std_max_def)

lemma max_rad_greatest:
  assumes "R \<in> max_extension ` set spcs"
      and "\<forall>s \<in> set spcs. \<not> fp_less R (max_extension s)"
      and "\<not> fp_less R rad" and "rad \<noteq> NaN" and "R \<noteq> NaN"
  shows "max_rad rad spcs = R"
  using assms
proof (induction spcs arbitrary: rad)
  case Nil
  then show ?case by simp
next
  case (Cons s spcs)
  show ?case
  proof (cases "max_extension s = R")
    case True
    have "std_max rad R = R"
    proof (cases "fp_less rad R")
      case True
      then show ?thesis by (simp add: std_max_def)
    next
      case False
      with Cons.prems have "rad = R" by (simp add: fp_equal)
      then show ?thesis by (simp add: std_max_def)
    qed
    moreover have "max_rad R spcs = R" using Cons.prems by (simp add: max_rad_bounded)
    ultimately show ?thesis using True by simp
  next
    case False
    with Cons.prems have in_rest: "R \<in> max_extension ` set spcs" by auto
    have top: "\<forall>s \<in> set spcs. \<not> fp_less R (max_extension s)" using Cons.prems by simp
    have "\<not> fp_less R (std_max rad (max_extension s))"
      using Cons.prems by (simp add: std_max_def)
    moreover have "std_max rad (max_extension s) \<noteq> NaN"
      using Cons.prems fp_less_not_NaN [of rad "max_extension s"] by (auto simp: std_max_def)
    ultimately have "max_rad (std_max rad (max_extension s)) spcs = R"
      using Cons.IH [OF in_rest top] Cons.prems by simp
    then show ?thesis by simp
  qed
qed

text \<open>
  C4, amended. When no space reports an extension greater than 0, \<open>autoScale\<close> returns
  the view as it is, its size and its counter included. When the largest extension \<open>R\<close>
  is greater than 0 and the counter is above the least \<^verbatim>\<open>int\<close>, the size of the view is
  \<^verbatim>\<open>GLfloat(2*R)\<close>, the value of \<^verbatim>\<open>GLfloat\<close> nearest to \<open>2 * R\<close>, infinite when \<open>2 * R\<close>
  is beyond the range, and the counter has decreased by 1.
\<close>

theorem autoScale_narrowed_size:
  "((\<forall>s \<in> set spcs. \<not> fp_less (Finite 0) (max_extension s)) \<longrightarrow>
        autoScale spcs view = Return view)
   \<and> (R \<in> max_extension ` set spcs \<and> (\<forall>s \<in> set spcs. \<not> fp_less R (max_extension s))
        \<and> fp_less (Finite 0) R \<and> in_int (auto_scale view - 1) \<longrightarrow>
        (\<exists>v. autoScale spcs view = Return v
           \<and> view_size v = GLfloat (fp_mul to_double (Finite 2) R)
           \<and> auto_scale v = auto_scale view - 1))"
proof (intro conjI impI)
  assume "\<forall>s \<in> set spcs. \<not> fp_less (Finite 0) (max_extension s)"
  then have "max_rad (Finite 0) spcs = Finite 0" by (rule max_rad_bounded)
  then show "autoScale spcs view = Return view" by (simp add: autoScale_def)
next
  assume a: "R \<in> max_extension ` set spcs \<and> (\<forall>s \<in> set spcs. \<not> fp_less R (max_extension s))
        \<and> fp_less (Finite 0) R \<and> in_int (auto_scale view - 1)"
  then have "\<not> fp_less R (Finite 0)" and "R \<noteq> NaN"
    using fp_less_asym [of "Finite 0" R] fp_less_not_NaN [of "Finite 0" R] by simp_all
  with a have "max_rad (Finite 0) spcs = R" by (intro max_rad_greatest) simp_all
  with a show "\<exists>v. autoScale spcs view = Return v
           \<and> view_size v = GLfloat (fp_mul to_double (Finite 2) R)
           \<and> auto_scale v = auto_scale view - 1"
    by (simp add: autoScale_def zoom_in_def c_dec_def)
qed

text \<open>At the least \<^verbatim>\<open>int\<close> the decrement is undefined.\<close>

lemma autoScale_counter_underflow:
  "fp_less (Finite 0) (max_rad (Finite 0) spcs) \<Longrightarrow> \<not> in_int (auto_scale view - 1)
     \<Longrightarrow> autoScale spcs view = Fault"
  by (simp add: autoScale_def zoom_in_def c_dec_def)

text \<open>Roundings and a quotient, computed.\<close>

lemma double_of_ten: "to_double 10 = Finite 10"
  by code_simp

lemma float_of_ten: "to_float 10 = Finite 10"
  by code_simp

lemma double_of_two_tenths: "to_double (2 * tenth) = Finite (3602879701896397 / 18014398509481984)"
  by code_simp

lemma float_of_two_tenths: "to_float (3602879701896397 / 18014398509481984) = Finite (13421773 / 67108864)"
  by code_simp

lemma narrowing_underflow: "GLfloat (fp_mul to_double (Finite 2) (Finite (1 / 10 ^ 46))) = Finite 0"
  by code_simp

lemma narrowing_overflow: "GLfloat (fp_mul to_double (Finite 2) (Finite (10 ^ 39))) = PosInf"
  by code_simp

lemma quotient_by_zero: "fp_div to_float (Finite 1) (to_float (of_int 0)) = PosInf"
  by (simp add: to_float_def round_to_def)

theorem autoScale_narrowed_size_witness:
  "\<not> fp_less (Finite 0) (Finite (- 1)) \<and> \<not> fp_less (Finite 0) NaN
   \<and> autoScale [\<lparr>max_extension = Finite (- 1)\<rparr>, \<lparr>max_extension = NaN\<rparr>] view0 = Return view0
   \<and> fp_less (Finite 0) (Finite 5) \<and> \<not> fp_less (Finite 5) (Finite (- 1))
   \<and> in_int (auto_scale view0 - 1)
   \<and> map_result view_size
        (autoScale [\<lparr>max_extension = Finite 5\<rparr>, \<lparr>max_extension = Finite (- 1)\<rparr>] view0)
       = Return (Finite 10)
   \<and> map_result auto_scale
        (autoScale [\<lparr>max_extension = Finite 5\<rparr>, \<lparr>max_extension = Finite (- 1)\<rparr>] view0)
       = Return 1"
proof -
  have a: "\<forall>s \<in> set [\<lparr>max_extension = Finite (- 1)\<rparr>, \<lparr>max_extension = NaN\<rparr>].
             \<not> fp_less (Finite 0) (max_extension s)"
    by simp
  from autoScale_narrowed_size
         [where spcs = "[\<lparr>max_extension = Finite (- 1)\<rparr>, \<lparr>max_extension = NaN\<rparr>]" and view = view0] a
  have c: "autoScale [\<lparr>max_extension = Finite (- 1)\<rparr>, \<lparr>max_extension = NaN\<rparr>] view0 = Return view0"
    by blast
  have i: "in_int (auto_scale view0 - 1)"
    by (simp add: view0_def in_int_def INT_MIN_def INT_MAX_def)
  have b: "Finite 5 \<in> max_extension ` set [\<lparr>max_extension = Finite 5\<rparr>, \<lparr>max_extension = Finite (- 1)\<rparr>]
     \<and> (\<forall>s \<in> set [\<lparr>max_extension = Finite 5\<rparr>, \<lparr>max_extension = Finite (- 1)\<rparr>].
           \<not> fp_less (Finite 5) (max_extension s))
     \<and> fp_less (Finite 0) (Finite 5) \<and> in_int (auto_scale view0 - 1)"
    using i by simp
  from autoScale_narrowed_size
         [where spcs = "[\<lparr>max_extension = Finite 5\<rparr>, \<lparr>max_extension = Finite (- 1)\<rparr>]"
            and R = "Finite 5" and view = view0] b
  obtain v where v: "autoScale [\<lparr>max_extension = Finite 5\<rparr>, \<lparr>max_extension = Finite (- 1)\<rparr>] view0 = Return v"
      "view_size v = GLfloat (fp_mul to_double (Finite 2) (Finite 5))"
      "auto_scale v = auto_scale view0 - 1"
    by blast
  have "GLfloat (fp_mul to_double (Finite 2) (Finite 5)) = Finite 10"
    by (simp add: double_of_ten float_of_ten)
  with v have d: "map_result view_size
        (autoScale [\<lparr>max_extension = Finite 5\<rparr>, \<lparr>max_extension = Finite (- 1)\<rparr>] view0)
       = Return (Finite 10)"
    "map_result auto_scale
        (autoScale [\<lparr>max_extension = Finite 5\<rparr>, \<lparr>max_extension = Finite (- 1)\<rparr>] view0)
       = Return 1"
    by (simp_all add: view0_def)
  from c i d show ?thesis by simp
qed

text \<open>
  C4, as stated, fails. For a single space whose extension is the \<^verbatim>\<open>real\<close> nearest to
  one tenth, the size of the view is 13421773 / 67108864, about 0.20000000298, and not
  twice the extension.
\<close>

theorem autoScale_size_counterexample:
  "max_extension space_tenth = Finite tenth \<and> 0 < tenth
   \<and> map_result view_size (autoScale [space_tenth] view0) = Return (Finite (13421773 / 67108864))
   \<and> Finite (13421773 / 67108864) \<noteq> Finite (2 * tenth)"
proof -
  have t: "0 < tenth" by (simp add: tenth_def)
  have g: "GLfloat (fp_mul to_double (Finite 2) (Finite tenth)) = Finite (13421773 / 67108864)"
    by (simp add: double_of_two_tenths float_of_two_tenths)
  have "in_int (auto_scale view0 - 1)"
    by (simp add: view0_def in_int_def INT_MIN_def INT_MAX_def)
  with t g have "map_result view_size (autoScale [space_tenth] view0)
      = Return (Finite (13421773 / 67108864))"
    by (simp add: autoScale_def space_tenth_def std_max_def zoom_in_def c_dec_def)
  moreover have "Finite (13421773 / 67108864) \<noteq> Finite (2 * tenth)" by (simp add: tenth_def)
  ultimately show ?thesis using t by (simp add: space_tenth_def)
qed

subsection \<open>The display string\<close>

text \<open>
  C9 does not hold on the code. The window size is written back after \<^verbatim>\<open>view.read\<close>
  inside the \<^verbatim>\<open>try\<close> block, so an exception from \<^verbatim>\<open>view.read\<close> skips it. Here the
  view is 800 by 600, the text sets the window size and then a zoom that cannot be read:
  the view is left 1024 by 768.
\<close>

theorem readDisplayString_window_size_after_throw:
  "window_size view0 = (800, 600)
   \<and> window_size (fst (snd (readDisplayString extern0 (DP player0) view0
        ''window_size=1024 768;zoom=abc''))) = (1024, 768)"
  by (simp add: readDisplayString_def extern0_def new_pairs_def read_pairs_def key_value_def
      View_read_keys_def DP_read_none_def view0_def width_def height_def)

text \<open>
  In general: when \<^verbatim>\<open>view.read\<close> throws, the window size is the one that it leaves;
  when it does not throw, the window size is kept.
\<close>

lemma readDisplayString_after_throw:
  assumes "new_Glossary w str = Inr glos"
      and "snd (DP_read w glos dp) = None"
      and "View_read w glos view = (v1, Some e)"
  shows "fst (snd (readDisplayString w dp view str)) = v1"
  using assms by (cases "DP_read w glos dp") (simp add: readDisplayString_def Let_def)

lemma readDisplayString_keeps_window_size:
  assumes "\<forall>glos. snd (View_read w glos view) = None"
  shows "window_size (fst (snd (readDisplayString w dp view str))) = window_size view"
proof (cases "new_Glossary w str")
  case (Inl e)
  then show ?thesis by (simp add: readDisplayString_def)
next
  case (Inr glos)
  obtain dp1 r where dp: "DP_read w glos dp = (dp1, r)" by (cases "DP_read w glos dp")
  obtain v1 where vr: "View_read w glos view = (v1, None)"
    using assms by (cases "View_read w glos view") (metis snd_conv)
  show ?thesis
  proof (cases r)
    case None
    with Inr dp vr show ?thesis
      by (simp add: readDisplayString_def width_def height_def Let_def)
  next
    case (Some e)
    with Inr dp show ?thesis by (simp add: readDisplayString_def)
  qed
qed

subsection \<open>Magnified capture\<close>

lemma buildReport_quiet: "list_all quiet (snd (buildReport w arg))"
  by (simp add: buildReport_def quiet_def Let_def split: option.split sum.split)

lemma pixelFactors_quiet: "quiet (pixelFactors w p view mag)"
  by (simp add: pixelFactors_def quiet_def Let_def)

lemma prepareDisplay_quiet: "list_all quiet (snd (snd (prepareDisplay w p view mag)))"
proof (cases "if auto_scale view > 0 then autoScale (spaces (simul p)) view else Return view")
  case (Return v1)
  define v2 where "v2 = (if track_fibers v1 \<noteq> 0 then autoTrack w v1 else v1)"
  obtain r tr where br: "buildReport w (report (PP p)) = (r, tr)"
    by (cases "buildReport w (report (PP p))")
  with buildReport_quiet [of w "report (PP p)"] have "list_all quiet tr" by simp
  then show ?thesis
    using pixelFactors_quiet
    by (cases r; cases "mDisplay p"; cases "prepareForDisplay w")
       (simp_all add: prepareDisplay_def Return br Let_def quiet_def)
next
  case (Throw e)
  then show ?thesis by (simp add: prepareDisplay_def)
next
  case Fault
  then show ?thesis by (simp add: prepareDisplay_def)
qed

lemma quiet_no_lock:
  assumes "list_all quiet tr"
  shows "Lock \<notin> set tr" and "Unlock \<notin> set tr" and "DisplayCytosim \<notin> set tr"
  using assms by (auto simp: list_all_iff quiet_def)

lemma written_no_lock:
  "Lock \<notin> set (written name img)" "Unlock \<notin> set (written name img)"
  by (simp_all add: written_def split: option.split)





lemma svm_unfold:
  assumes "supported w format"
  shows "saveViewMagnified w p view mag name format downsample =
        (let W = width view; H = height view in
         case prepareDisplay w p view mag of
           (v1, Throw e, tr) \<Rightarrow> (Throw e, v1, [Lock] @ tr)
         | (v1, Fault, tr) \<Rightarrow> (Fault, v1, [Lock] @ tr)
         | (v1, Return u, tr) \<Rightarrow>
             (case saveMagnifiedImage w mag name format W H downsample of
                (err, n, img) \<Rightarrow>
                  if err \<noteq> 0 then
                    (case saveCompositeImage w mag name format W H (pixelSize w v1) of
                       (err2, m, img2) \<Rightarrow>
                         (Return err2, v1,
                          [Lock] @ tr @ [OpenDisplay]
                          @ replicate n DisplayCytosim @ written name img
                          @ replicate m DisplayCytosim @ written name img2
                          @ (if err2 = 0 then [PrintSaved W H name] else [])
                          @ [CloseDisplay, Unlock]))
                  else
                    (case (scaled mag W downsample, scaled mag H downsample) of
                       (Some a, Some b) \<Rightarrow>
                         (Return err, v1,
                          [Lock] @ tr @ [OpenDisplay]
                          @ replicate n DisplayCytosim @ written name img
                          @ [PrintSaved a b name] @ [CloseDisplay, Unlock])
                     | _ \<Rightarrow>
                         (Fault, v1,
                          [Lock] @ tr @ [OpenDisplay]
                          @ replicate n DisplayCytosim @ written name img))))"
  using assms by (simp add: saveViewMagnified_def)

lemma svm_direct:
  assumes "supported w format"
      and "prepareDisplay w p view mag = (v1, Return u, tr)"
      and "saveMagnifiedImage w mag name format (width view) (height view) downsample = (0, n, img)"
      and "scaled mag (width view) downsample = Some a"
      and "scaled mag (height view) downsample = Some b"
  shows "saveViewMagnified w p view mag name format downsample =
           (Return 0, v1, [Lock] @ tr @ [OpenDisplay] @ replicate n DisplayCytosim
              @ written name img @ [PrintSaved a b name] @ [CloseDisplay, Unlock])"
  using assms by (simp add: svm_unfold)


lemma prepareDisplay_sample:
  "\<exists>v1 tr. prepareDisplay extern0 player0 view0 3 = (v1, Return (), tr)"
  by (simp add: prepareDisplay_def buildReport_def player0_def view0_def autoScale_def
      std_max_def zoom_in_def c_dec_def in_int_def INT_MIN_def INT_MAX_def Let_def)

lemma scaled_sample: "scaled 3 800 2 = Some 1200" "scaled 3 600 2 = Some 900"
  by (simp_all add: scaled_def c_mul_def c_div_def in_int_def INT_MIN_def INT_MAX_def
      signed_divide_int_def)











lemma observe_held:
  "Unlock \<notin> set (butlast es) \<Longrightarrow> set (observe True c es sched) \<subseteq> {c}"
proof (induction es arbitrary: sched)
  case Nil
  then show ?case by simp
next
  case (Cons e es)
  show ?case
  proof (cases "es = []")
    case True
    then show ?thesis by (auto simp: Let_def)
  next
    case False
    with Cons.prems have "e \<noteq> Unlock" and "Unlock \<notin> set (butlast es)" by auto
    with Cons.IH [of "drop 1 sched"] show ?thesis by (auto simp: Let_def)
  qed
qed

text \<open>Without the lock the worker moves between two tiles, and they see two states.\<close>

lemma observe_without_lock:
  "observe False 0 [OpenDisplay, DisplayCytosim, DisplayCytosim, CloseDisplay] [0, 1, 1, 0] = [1, 2]"
  by (simp add: Let_def)

lemma observe_after_lock:
  assumes "Unlock \<notin> set (butlast es)"
  shows "\<exists>x. set (observe False c (Lock # es) sched) \<subseteq> {x}"
proof -
  define k where "k = (case sched of [] \<Rightarrow> 0 | k # ks \<Rightarrow> k)"
  have "observe False c (Lock # es) sched = observe True (c + k) es (drop 1 sched)"
    by (simp add: Let_def k_def)
  with observe_held [OF assms, of "c + k" "drop 1 sched"] show ?thesis by auto
qed

lemma svm_shape:
  assumes sup: "supported w format"
  shows "\<exists>body fin.
       snd (snd (saveViewMagnified w p view mag name format ds))
         = [Lock] @ snd (snd (prepareDisplay w p view mag)) @ body @ fin
     \<and> Lock \<notin> set body \<and> Unlock \<notin> set body
     \<and> (fin = [CloseDisplay, Unlock] \<or> fin = [])
     \<and> ((\<exists>err. fst (saveViewMagnified w p view mag name format ds) = Return err)
          \<longleftrightarrow> fin = [CloseDisplay, Unlock])"
proof -
  obtain v1 r tr where prep: "prepareDisplay w p view mag = (v1, r, tr)"
    by (cases "prepareDisplay w p view mag") auto
  obtain err n img where d: "saveMagnifiedImage w mag name format (width view) (height view) ds = (err, n, img)"
    by (cases "saveMagnifiedImage w mag name format (width view) (height view) ds") auto
  obtain err2 m img2 where c: "saveCompositeImage w mag name format (width view) (height view) (pixelSize w v1) = (err2, m, img2)"
    by (cases "saveCompositeImage w mag name format (width view) (height view) (pixelSize w v1)") auto
  note wl = written_no_lock
  consider (thr) e where "r = Throw e" | (flt) "r = Fault"
    | (comp) u where "r = Return u" "err \<noteq> 0"
    | (dir) u a b where "r = Return u" "err = 0"
        "scaled mag (width view) ds = Some a" "scaled mag (height view) ds = Some b"
    | (bad) u where "r = Return u" "err = 0"
        "scaled mag (width view) ds = None \<or> scaled mag (height view) ds = None"
    by (cases r; cases "scaled mag (width view) ds"; cases "scaled mag (height view) ds") auto
  then show ?thesis
  proof cases
    case thr
    then show ?thesis
      by (intro exI [of _ "[]"]) (simp add: svm_unfold [OF sup] prep)
  next
    case flt
    then show ?thesis
      by (intro exI [of _ "[]"]) (simp add: svm_unfold [OF sup] prep)
  next
    case comp
    then show ?thesis
      by (intro exI [of _ "[OpenDisplay] @ replicate n DisplayCytosim @ written name img
              @ replicate m DisplayCytosim @ written name img2
              @ (if err2 = 0 then [PrintSaved (width view) (height view) name] else [])"]
            exI [of _ "[CloseDisplay, Unlock]"])
         (simp add: svm_unfold [OF sup] prep d c wl)
  next
    case dir
    then show ?thesis
      by (intro exI [of _ "[OpenDisplay] @ replicate n DisplayCytosim @ written name img
              @ [PrintSaved a b name]"]
            exI [of _ "[CloseDisplay, Unlock]"])
         (simp add: svm_unfold [OF sup] prep d wl)
  next
    case bad
    then show ?thesis
      by (intro exI [of _ "[OpenDisplay] @ replicate n DisplayCytosim @ written name img"]
            exI [of _ "[]"])
         (auto simp: svm_unfold [OF sup] prep d wl split: option.splits)
  qed
qed

text \<open>
  C1. For a supported format the events of \<open>saveViewMagnified\<close> are, in this order: the
  lock, the events of the preparation, the events of the capture, and an end that is the
  closing of the display followed by the unlock when the function returns, and nothing
  when it does not. The lock and the unlock occur neither in the preparation nor in the
  capture, and no tile is drawn in the preparation: the lock comes before the preparation
  and before every tile, the unlock after the last tile and the closing of the display.
  With a worker that the lock excludes, whatever the worker tries to do and when, all the
  tiles of the capture see one state.
\<close>

theorem saveViewMagnified_holds_lock:
  assumes sup: "supported w format"
  shows "\<exists>body fin.
       snd (snd (saveViewMagnified w p view mag name format ds))
         = [Lock] @ snd (snd (prepareDisplay w p view mag)) @ body @ fin
     \<and> Lock \<notin> set (snd (snd (prepareDisplay w p view mag)) @ body)
     \<and> Unlock \<notin> set (snd (snd (prepareDisplay w p view mag)) @ body)
     \<and> DisplayCytosim \<notin> set (snd (snd (prepareDisplay w p view mag)))
     \<and> (fin = [CloseDisplay, Unlock] \<or> fin = [])
     \<and> ((\<exists>err. fst (saveViewMagnified w p view mag name format ds) = Return err)
          \<longleftrightarrow> fin = [CloseDisplay, Unlock])
     \<and> (\<forall>c sched. \<exists>x.
          set (observe False c (snd (snd (saveViewMagnified w p view mag name format ds))) sched)
            \<subseteq> {x})"
proof -
  define prep where "prep = snd (snd (prepareDisplay w p view mag))"
  define trace where "trace = snd (snd (saveViewMagnified w p view mag name format ds))"
  from svm_shape [OF sup, of p view mag name ds] obtain body fin where
    tr: "trace = [Lock] @ prep @ body @ fin" and
    b: "Lock \<notin> set body" "Unlock \<notin> set body" and
    f: "fin = [CloseDisplay, Unlock] \<or> fin = []" and
    r: "(\<exists>err. fst (saveViewMagnified w p view mag name format ds) = Return err)
          \<longleftrightarrow> fin = [CloseDisplay, Unlock]"
    unfolding prep_def trace_def by blast
  have q: "Lock \<notin> set prep" "Unlock \<notin> set prep" "DisplayCytosim \<notin> set prep"
    unfolding prep_def using quiet_no_lock [OF prepareDisplay_quiet] by blast+
  have "Unlock \<notin> set (butlast (prep @ body @ fin))"
  proof (cases "fin = []")
    case True
    have "set (butlast (prep @ body)) \<subseteq> set (prep @ body)" by (auto dest: in_set_butlastD)
    with True q b show ?thesis by auto
  next
    case False
    with f have "fin = [CloseDisplay, Unlock]" by simp
    then have "butlast (prep @ body @ fin) = prep @ body @ [CloseDisplay]"
      by (simp add: butlast_append)
    with q b show ?thesis by simp
  qed
  then have "\<exists>x. set (observe False c trace sched) \<subseteq> {x}" for c sched
    unfolding tr using observe_after_lock by simp
  with tr b f r q show ?thesis unfolding prep_def trace_def
    by (intro exI [of _ body] exI [of _ fin]) simp
qed

theorem saveViewMagnified_holds_lock_witness:
  "supported extern0 ''png''
   \<and> (\<exists>body. snd (snd (saveViewMagnified extern0 player0 view0 3 ''a.png'' ''png'' 2))
         = [Lock] @ snd (snd (prepareDisplay extern0 player0 view0 3)) @ body @ [CloseDisplay, Unlock]
       \<and> Lock \<notin> set body \<and> Unlock \<notin> set body)
   \<and> (\<exists>x. set (observe False 0
         (snd (snd (saveViewMagnified extern0 player0 view0 3 ''a.png'' ''png'' 2)))
         [1, 2, 3, 4, 5, 6, 7, 8, 9, 10, 11, 12, 13, 14, 15, 16]) \<subseteq> {x})"
proof -
  have h: "supported extern0 ''png''" by (simp add: extern0_def is_png_def)
  obtain v1 tr where p0: "prepareDisplay extern0 player0 view0 3 = (v1, Return (), tr)"
    using prepareDisplay_sample by blast
  have sc: "scaled 3 (width view0) 2 = Some 1200" "scaled 3 (height view0) 2 = Some 900"
    by (simp_all add: width_def height_def view0_def scaled_sample)
  have d0: "saveMagnifiedImage extern0 3 ''a.png'' ''png'' (width view0) (height view0) 2
      = (0, 9, Some (1200, 900))"
    using sc by (simp add: extern0_def spec_saveMagnifiedImage_def)
  have ret: "\<exists>err. fst (saveViewMagnified extern0 player0 view0 3 ''a.png'' ''png'' 2) = Return err"
    by (simp add: svm_direct [OF h p0 d0 sc])
  from saveViewMagnified_holds_lock [OF h, of player0 view0 3 "''a.png''" 2]
  obtain body fin where
    tr: "snd (snd (saveViewMagnified extern0 player0 view0 3 ''a.png'' ''png'' 2))
         = [Lock] @ snd (snd (prepareDisplay extern0 player0 view0 3)) @ body @ fin" and
    nb: "Lock \<notin> set (snd (snd (prepareDisplay extern0 player0 view0 3)) @ body)"
        "Unlock \<notin> set (snd (snd (prepareDisplay extern0 player0 view0 3)) @ body)" and
    f: "(\<exists>err. fst (saveViewMagnified extern0 player0 view0 3 ''a.png'' ''png'' 2) = Return err)
          \<longleftrightarrow> fin = [CloseDisplay, Unlock]" and
    ob: "\<forall>c sched. \<exists>x.
          set (observe False c (snd (snd (saveViewMagnified extern0 player0 view0 3 ''a.png'' ''png'' 2))) sched)
            \<subseteq> {x}"
    by blast
  from f ret have fin: "fin = [CloseDisplay, Unlock]" by blast
  from nb have nb': "Lock \<notin> set body \<and> Unlock \<notin> set body" by simp
  from ob have o: "\<exists>x. set (observe False 0
         (snd (snd (saveViewMagnified extern0 player0 view0 3 ''a.png'' ''png'' 2)))
         [1, 2, 3, 4, 5, 6, 7, 8, 9, 10, 11, 12, 13, 14, 15, 16]) \<subseteq> {x}"
    by blast
  from tr fin nb' have "\<exists>body. snd (snd (saveViewMagnified extern0 player0 view0 3 ''a.png'' ''png'' 2))
         = [Lock] @ snd (snd (prepareDisplay extern0 player0 view0 3)) @ body @ [CloseDisplay, Unlock]
       \<and> Lock \<notin> set body \<and> Unlock \<notin> set body"
    by blast
  with h o show ?thesis by blast
qed

text \<open>
  C2. For a format that is not supported, \<open>saveViewMagnified\<close> returns \<open>-1\<close>, leaves
  the view as it is, and its only event is the error line: the lock is neither taken nor
  released, the preparation does not run, and the callback that draws is not called.
\<close>

theorem saveViewMagnified_unsupported:
  assumes "\<not> supported w format"
  shows "fst (saveViewMagnified w p view mag name format ds) = Return (- 1)
       \<and> fst (snd (saveViewMagnified w p view mag name format ds)) = view
       \<and> (\<exists>msg. snd (snd (saveViewMagnified w p view mag name format ds)) = [PrintError msg])
       \<and> Lock \<notin> set (snd (snd (saveViewMagnified w p view mag name format ds)))
       \<and> Unlock \<notin> set (snd (snd (saveViewMagnified w p view mag name format ds)))
       \<and> DisplayCytosim \<notin> set (snd (snd (saveViewMagnified w p view mag name format ds)))"
  using assms by (simp add: saveViewMagnified_def)

theorem saveViewMagnified_unsupported_witness:
  "\<not> supported extern0 ''gif''
   \<and> fst (saveViewMagnified extern0 player0 view0 3 ''a.gif'' ''gif'' 2) = Return (- 1)
   \<and> Lock \<notin> set (snd (snd (saveViewMagnified extern0 player0 view0 3 ''a.gif'' ''gif'' 2)))
   \<and> DisplayCytosim \<notin> set (snd (snd (saveViewMagnified extern0 player0 view0 3 ''a.gif'' ''gif'' 2)))"
proof -
  have h: "\<not> supported extern0 ''gif''" by (simp add: extern0_def is_png_def)
  from saveViewMagnified_unsupported [OF h, of player0 view0 3 "''a.gif''" 2] h
  show ?thesis by blast
qed

end
